theory Spec2Isabelle
  imports Complex_Main "HOL-Library.AList"
begin

section \<open>Values\<close>

text \<open>
  The tokenizer of \<^verbatim>\<open>src/data/amc_tokenise_v2.py\<close> computes on numpy \<^verbatim>\<open>float64\<close>
  arrays. Rounding is abstracted: a finite value is a real number. What is kept of the
  floating-point arithmetic is that division never raises: numpy returns an infinity or
  a not-a-number (with a warning) where Python's own division would raise. The inputs
  read from the matrix file and from the two pickled dictionaries (raw values, total
  counts, normalization factors, the target sum) are finite, so a divisor or a factor is
  a \<^typ>\<open>real\<close>. The two signed zeros are one value \<open>Fin 0\<close>.
\<close>

datatype npfloat = Fin real | PInf | NInf | NaN

fun np_div :: "npfloat \<Rightarrow> real \<Rightarrow> npfloat" where
  "np_div (Fin x) d =
     (if d \<noteq> 0 then Fin (x / d) else if x = 0 then NaN else if 0 < x then PInf else NInf)"
| "np_div PInf d = (if 0 \<le> d then PInf else NInf)"
| "np_div NInf d = (if 0 \<le> d then NInf else PInf)"
| "np_div NaN d = NaN"

fun np_mul :: "npfloat \<Rightarrow> real \<Rightarrow> npfloat" where
  "np_mul (Fin x) c = Fin (x * c)"
| "np_mul PInf c = (if c = 0 then NaN else if 0 < c then PInf else NInf)"
| "np_mul NInf c = (if c = 0 then NaN else if 0 < c then NInf else PInf)"
| "np_mul NaN c = NaN"

fun np_neg :: "npfloat \<Rightarrow> npfloat" where
  "np_neg (Fin x) = Fin (- x)"
| "np_neg PInf = NInf"
| "np_neg NInf = PInf"
| "np_neg NaN = NaN"

text \<open>The comparison \<^verbatim>\<open><\<close> of two floats: false as soon as one side is not a number.\<close>

fun np_less :: "npfloat \<Rightarrow> npfloat \<Rightarrow> bool" where
  "np_less NaN b = False"
| "np_less a NaN = False"
| "np_less (Fin x) (Fin y) = (x < y)"
| "np_less (Fin x) PInf = True"
| "np_less (Fin x) NInf = False"
| "np_less PInf b = False"
| "np_less NInf NInf = False"
| "np_less NInf b = True"

text \<open>
  The order numpy sorts floats by: \<^verbatim>\<open>a < b || (b != b && a == a)\<close>, which is \<^verbatim>\<open><\<close>
  with every not-a-number after every number.
\<close>

definition sort_lt :: "npfloat \<Rightarrow> npfloat \<Rightarrow> bool" where
  "sort_lt a b = (np_less a b \<or> (b = NaN \<and> a \<noteq> NaN))"

text \<open>\<open>desc a b\<close>: \<open>a\<close> may stand before \<open>b\<close> in a sequence sorted by descending value
  (the negated values are in numpy's ascending order).\<close>

definition desc :: "npfloat \<Rightarrow> npfloat \<Rightarrow> bool" where
  "desc a b = (\<not> sort_lt (np_neg b) (np_neg a))"




text \<open>A Python value stored in a metadata column or in a row of the dataset.\<close>

datatype pyval = PInt int | PFloat real | PStr string | PList "pyval list"

datatype error =
    KeyError string
  | AttributeError string
  | IndexError
  | TypeError
  | ValueError
  | UnboundLocalError string
  | ArrowInvalid

text \<open>A local variable of a Python function: unassigned, or holding a value.\<close>

datatype 'a pyvar = Unbound | Bound 'a

fun mapE :: "('a \<Rightarrow> error + 'b) \<Rightarrow> 'a list \<Rightarrow> error + 'b list" where
  "mapE f [] = Inr []"
| "mapE f (x # xs) =
     (case f x of
        Inl e \<Rightarrow> Inl e
      | Inr y \<Rightarrow> (case mapE f xs of Inl e \<Rightarrow> Inl e | Inr ys \<Rightarrow> Inr (y # ys)))"

fun foldE :: "('a \<Rightarrow> 's \<Rightarrow> error + 's) \<Rightarrow> 'a list \<Rightarrow> 's \<Rightarrow> error + 's" where
  "foldE f [] s = Inr s"
| "foldE f (x # xs) s = (case f x s of Inl e \<Rightarrow> Inl e | Inr s' \<Rightarrow> foldE f xs s')"

text \<open>\<^verbatim>\<open>d[k]\<close> on a dictionary.\<close>

definition dict_get :: "(string \<rightharpoonup> 'v) \<Rightarrow> string \<Rightarrow> error + 'v" where
  "dict_get d k = (case d k of None \<Rightarrow> Inl (KeyError k) | Some v \<Rightarrow> Inr v)"

text \<open>\<^verbatim>\<open>a[idx]\<close> with an array of indices: numpy raises when an index is out of bounds.\<close>

definition take_idx :: "'a list \<Rightarrow> nat list \<Rightarrow> error + 'a list" where
  "take_idx xs idx =
     (if \<forall>i \<in> set idx. i < length xs then Inr (map (\<lambda>i. xs ! i) idx) else Inl IndexError)"

text \<open>\<^verbatim>\<open>range(start, stop, step)\<close> for a positive step.\<close>

function py_range :: "nat \<Rightarrow> nat \<Rightarrow> nat \<Rightarrow> nat list" where
  "py_range i n c = (if i < n \<and> 0 < c then i # py_range (i + c) n c else [])"
  by pat_completeness auto
termination
  by (relation "measure (\<lambda>(i, n, c). n - i)") auto

declare py_range.simps [simp del]

section \<open>Ranking and tokenizing one cell\<close>

text \<open>
  \<^verbatim>\<open>np.argsort\<close> is a routine of the numpy library, called with its default sorting
  kind. It is a parameter \<open>argsort\<close> of the model. What the library documents of it is
  \<open>argsort_spec\<close>: the result holds every index of the array once, and reading the array
  through it gives the values in ascending order. \<open>comparison_sort\<close> says that the routine
  looks at the keys only by comparing them, as each of numpy's float sorts does: two
  arrays whose entries compare alike are permuted alike. Nothing is assumed on the order
  it gives to equal keys.
\<close>

type_synonym argsort = "npfloat list \<Rightarrow> nat list"

definition argsort_spec :: "argsort \<Rightarrow> bool" where
  "argsort_spec argsort \<longleftrightarrow>
     (\<forall>ks. distinct (argsort ks) \<and> set (argsort ks) = {0..<length ks} \<and>
           sorted_wrt (\<lambda>i j. \<not> sort_lt (ks ! j) (ks ! i)) (argsort ks))"


definition rank_genes :: "argsort \<Rightarrow> npfloat list \<Rightarrow> int list \<Rightarrow> error + int list" where
  "rank_genes argsort gene_vector gene_tokens =
     (let sorted_indices = argsort (map np_neg gene_vector)
      in take_idx gene_tokens sorted_indices)"

text \<open>\<^verbatim>\<open>np.nonzero(gene_vector)[0]\<close>: the positions of the entries that are not zero.
  A not-a-number is not zero.\<close>

definition nonzero :: "npfloat list \<Rightarrow> nat list" where
  "nonzero v = [i \<leftarrow> [0..<length v]. v ! i \<noteq> Fin 0]"

definition tokenize_cell :: "argsort \<Rightarrow> npfloat list \<Rightarrow> int list \<Rightarrow> error + int list" where
  "tokenize_cell argsort gene_vector gene_tokens =
     (let nonzero_mask = nonzero gene_vector
      in case take_idx gene_vector nonzero_mask of
           Inl e \<Rightarrow> Inl e
         | Inr vs \<Rightarrow>
             (case take_idx gene_tokens nonzero_mask of
                Inl e \<Rightarrow> Inl e
              | Inr ts \<Rightarrow> rank_genes argsort vs ts))"

text \<open>The positions, in the cell's vector, of the tokens that \<open>tokenize_cell\<close> returns:
  the mask read through the sorting permutation.\<close>

definition ranked_positions :: "argsort \<Rightarrow> npfloat list \<Rightarrow> nat list" where
  "ranked_positions argsort gene_vector =
     map (\<lambda>p. nonzero gene_vector ! p)
         (argsort (map np_neg (map (\<lambda>i. gene_vector ! i) (nonzero gene_vector))))"

text \<open>
  An instance of the library routine, to run the model on concrete cells: insertion of
  the indices, from the last to the first, into a list kept in ascending key order.
\<close>

fun insert_index :: "npfloat list \<Rightarrow> nat \<Rightarrow> nat list \<Rightarrow> nat list" where
  "insert_index ks i [] = [i]"
| "insert_index ks i (j # js) =
     (if sort_lt (ks ! j) (ks ! i) then j # insert_index ks i js else i # j # js)"

definition insertion_argsort :: argsort where
  "insertion_argsort ks = foldr (insert_index ks) [0..<length ks] []"

section \<open>The tokenizer and the matrix source\<close>

text \<open>
  \<^verbatim>\<open>TranscriptomeTokenizer.__init__\<close> stores the dictionary of custom attributes
  (\<^verbatim>\<open>None\<close>, or input attribute name to output column name, in insertion order, the
  keys pairwise different as in any dictionary) and loads the two pickled dictionaries. \<^verbatim>\<open>genelist_dict\<close> maps every key of the
  normalization-factor dictionary to \<^verbatim>\<open>True\<close>.
\<close>

record tokenizer =
  custom_attr_name_dict :: "(string \<times> string) list option"
  nproc :: nat
  gene_median_dict :: "string \<rightharpoonup> real"
  gene_token_dict :: "string \<rightharpoonup> int"

definition genelist_dict :: "tokenizer \<Rightarrow> (string \<rightharpoonup> bool)" where
  "genelist_dict tk = (\<lambda>g. case gene_median_dict tk g of None \<Rightarrow> None | Some _ \<Rightarrow> Some True)"

text \<open>
  What the two container formats (an AnnData file, a loom file) expose of a matrix once
  opened: the gene identifier of every gene column, the total count of every cell, the
  optional pass/fail flag of every cell, the other per-cell attributes, and the raw
  values, here one vector per cell (the loom file stores the transpose). The gene
  identifiers and the total counts are there by type; the flag may be absent.
\<close>

record matrix =
  file_path :: string
  ensembl_id :: "string list"
  n_counts :: "real list"
  filter_pass :: "int list option"
  attrs :: "string \<rightharpoonup> pyval list"
  X :: "real list list"


text \<open>A per-cell attribute looked up by name (\<^verbatim>\<open>adata.obs[k]\<close>, \<^verbatim>\<open>data.ca[k]\<close>).\<close>

definition cell_attribute :: "matrix \<Rightarrow> string \<Rightarrow> pyval list option" where
  "cell_attribute m k =
     (if k = ''n_counts'' then Some (map PFloat (n_counts m))
      else if k = ''filter_pass'' then map_option (map PInt) (filter_pass m)
      else attrs m k)"

text \<open>
  The head of \<^verbatim>\<open>tokenize_anndata\<close> and of \<^verbatim>\<open>tokenize_loom\<close>, the same statements
  in both: the positions of the gene columns whose identifier is a key of
  \<^verbatim>\<open>genelist_dict\<close>, their normalization factors, and their tokens.
\<close>

definition gene_columns :: "tokenizer \<Rightarrow> string list \<Rightarrow> error + (nat list \<times> real list \<times> int list)" where
  "gene_columns tk ids =
     (let coding_miRNA_loc =
            [j \<leftarrow> [0..<length ids].
               (case genelist_dict tk (ids ! j) of None \<Rightarrow> False | Some b \<Rightarrow> b)]
      in case mapE (dict_get (gene_median_dict tk)) (map (\<lambda>j. ids ! j) coding_miRNA_loc) of
           Inl e \<Rightarrow> Inl e
         | Inr norm_factor_vector \<Rightarrow>
             (let coding_miRNA_ids = map (\<lambda>j. ids ! j) coding_miRNA_loc
              in case mapE (dict_get (gene_token_dict tk)) coding_miRNA_ids of
                   Inl e \<Rightarrow> Inl e
                 | Inr coding_miRNA_tokens \<Rightarrow>
                     Inr (coding_miRNA_loc, norm_factor_vector, coding_miRNA_tokens)))"

text \<open>The cells to tokenize and what is printed: the cells whose flag equals 1, or, when
  the matrix has no flag, every cell and one printed line.\<close>

definition fallback_message :: "string \<Rightarrow> string" where
  "fallback_message path = path @ '' has no column attribute 'filter_pass'; tokenizing all cells.''"

definition select_cells :: "matrix \<Rightarrow> string list \<times> nat list" where
  "select_cells m =
     (case filter_pass m of
        Some fl \<Rightarrow> ([], [i \<leftarrow> [0..<length fl]. fl ! i = 1])
      | None \<Rightarrow> ([fallback_message (file_path m)], [0..<length (X m)]))"

text \<open>One entry of the normalized matrix:
  \<^verbatim>\<open>X_view / n_counts * target_sum / norm_factor_vector\<close>, evaluated left to right.\<close>

definition normalize_value :: "real \<Rightarrow> real \<Rightarrow> real \<Rightarrow> real \<Rightarrow> npfloat" where
  "normalize_value x n target_sum f = np_div (np_mul (np_div (Fin x) n) target_sum) f"

text \<open>The normalized vector of cell \<open>i\<close> over the gene columns \<open>loc\<close>.\<close>

definition normalize_cell :: "matrix \<Rightarrow> real \<Rightarrow> nat list \<Rightarrow> real list \<Rightarrow> nat \<Rightarrow> npfloat list" where
  "normalize_cell m target_sum loc norm_factor_vector i =
     map (\<lambda>(j, f). normalize_value (X m ! i ! j) (n_counts m ! i) target_sum f)
         (zip loc norm_factor_vector)"

type_synonym metadata = "(string \<times> pyval list) list"

text \<open>\<^verbatim>\<open>for k in file_cell_metadata.keys(): file_cell_metadata[k] += <column k of the
  chunk>.tolist()\<close>; a missing column raises \<open>missing k\<close>.\<close>

definition extend_metadata :: "(string \<Rightarrow> error) \<Rightarrow> matrix \<Rightarrow> nat list \<Rightarrow> metadata \<Rightarrow> error + metadata" where
  "extend_metadata missing m idx d =
     mapE (\<lambda>(k, vs). case cell_attribute m k of
                        None \<Rightarrow> Inl (missing k)
                      | Some col \<Rightarrow> Inr (k, vs @ map (\<lambda>i. col ! i) idx)) d"

text \<open>The last statements of the chunk loop of both functions: the custom attributes of
  the chunk are appended, or \<^verbatim>\<open>file_cell_metadata\<close> is assigned \<^verbatim>\<open>None\<close>.\<close>

definition chunk_metadata ::
  "(string \<Rightarrow> error) \<Rightarrow> tokenizer \<Rightarrow> matrix \<Rightarrow> nat list \<Rightarrow> metadata option pyvar \<Rightarrow> error + metadata option pyvar" where
  "chunk_metadata missing tk m idx file_cell_metadata =
     (case custom_attr_name_dict tk of
        Some _ \<Rightarrow>
          (case file_cell_metadata of
             Unbound \<Rightarrow> Inl (UnboundLocalError ''file_cell_metadata'')
           | Bound None \<Rightarrow> Inl (AttributeError ''keys'')
           | Bound (Some d) \<Rightarrow>
               (case extend_metadata missing m idx d of
                  Inl e \<Rightarrow> Inl e
                | Inr d' \<Rightarrow> Inr (Bound (Some d'))))
      | None \<Rightarrow> Inr (Bound None))"

text \<open>\<^verbatim>\<open>file_cell_metadata\<close> before the loop: assigned only when custom attributes are
  configured.\<close>

definition initial_metadata :: "tokenizer \<Rightarrow> metadata option pyvar" where
  "initial_metadata tk =
     (case custom_attr_name_dict tk of
        Some d \<Rightarrow> Bound (Some (map (\<lambda>attr_key. (attr_key, [])) (map fst d)))
      | None \<Rightarrow> Unbound)"

text \<open>\<^verbatim>\<open>return tokenized_cells, file_cell_metadata\<close>: reading a local variable that
  was never assigned raises.\<close>

definition return_cells :: "int list list \<times> metadata option pyvar \<Rightarrow> error + (int list list \<times> metadata option)" where
  "return_cells st =
     (case snd st of
        Unbound \<Rightarrow> Inl (UnboundLocalError ''file_cell_metadata'')
      | Bound md \<Rightarrow> Inr (fst st, md))"

section \<open>\<^verbatim>\<open>tokenize_anndata\<close>\<close>

text \<open>\<^verbatim>\<open>sp.csr_matrix(X_norm)\<close> keeps, for every row, the entries that are not zero
  (\<^verbatim>\<open>.data\<close>) and their columns (\<^verbatim>\<open>.indices\<close>), in column order.\<close>

definition csr_indices :: "npfloat list \<Rightarrow> nat list" where
  "csr_indices row = [j \<leftarrow> [0..<length row]. row ! j \<noteq> Fin 0]"

definition csr_data :: "npfloat list \<Rightarrow> npfloat list" where
  "csr_data row = [x \<leftarrow> row. x \<noteq> Fin 0]"

text \<open>The body of the chunk loop, for the chunk \<open>idx\<close> of cell positions.\<close>

definition anndata_chunk ::
  "argsort \<Rightarrow> tokenizer \<Rightarrow> matrix \<Rightarrow> real \<Rightarrow> nat list \<times> real list \<times> int list \<Rightarrow> nat list \<Rightarrow>
   int list list \<times> metadata option pyvar \<Rightarrow> error + (int list list \<times> metadata option pyvar)" where
  "anndata_chunk argsort tk m target_sum cols idx st =
     (case cols of (coding_miRNA_loc, norm_factor_vector, coding_miRNA_tokens) \<Rightarrow>
        (let X_norm = map (normalize_cell m target_sum coding_miRNA_loc norm_factor_vector) idx
         in case mapE (\<lambda>row. case take_idx coding_miRNA_tokens (csr_indices row) of
                                Inl e \<Rightarrow> Inl e
                              | Inr ts \<Rightarrow> rank_genes argsort (csr_data row) ts) X_norm of
              Inl e \<Rightarrow> Inl e
            | Inr cells \<Rightarrow>
                (case chunk_metadata KeyError tk m idx (snd st) of
                   Inl e \<Rightarrow> Inl e
                 | Inr md \<Rightarrow> Inr (fst st @ cells, md))))"

text \<open>\<open>chunk_size\<close> is a natural number: a negative step, for which \<^verbatim>\<open>range\<close> is empty,
  is not modelled; a zero step raises.\<close>

definition tokenize_anndata ::
  "argsort \<Rightarrow> tokenizer \<Rightarrow> matrix \<Rightarrow> real \<Rightarrow> nat \<Rightarrow>
   string list \<times> (error + (int list list \<times> metadata option))" where
  "tokenize_anndata argsort tk adata target_sum chunk_size =
     (let file_cell_metadata = initial_metadata tk
      in case gene_columns tk (ensembl_id adata) of
           Inl e \<Rightarrow> ([], Inl e)
         | Inr cols \<Rightarrow>
             (case select_cells adata of (printed, filter_pass_loc) \<Rightarrow>
                (printed,
                 if chunk_size = 0 then Inl ValueError
                 else
                   (case foldE (\<lambda>i. anndata_chunk argsort tk adata target_sum cols
                                       (take chunk_size (drop i filter_pass_loc)))
                               (py_range 0 (length filter_pass_loc) chunk_size)
                               ([], file_cell_metadata) of
                      Inl e \<Rightarrow> Inl e
                    | Inr st \<Rightarrow> return_cells st))))"

section \<open>\<^verbatim>\<open>tokenize_loom\<close>\<close>

text \<open>
  \<^verbatim>\<open>data.scan(items=filter_pass_loc, axis=1)\<close> is a routine of the loompy library: it
  walks the cells of the file in consecutive batches of \<open>batch_size\<close> cells (512 unless
  told otherwise) and yields, for every batch that holds a selected cell, the view of the
  selected cells of that batch. A batch with no selected cell yields nothing.
\<close>

definition loom_scan :: "nat \<Rightarrow> nat \<Rightarrow> nat list \<Rightarrow> nat list list" where
  "loom_scan batch_size n_cells items =
     [selection \<leftarrow> map (\<lambda>ix. [i \<leftarrow> items. ix \<le> i \<and> i < ix + min (n_cells - ix) batch_size])
                       (py_range 0 n_cells batch_size). selection \<noteq> []]"

definition loom_batch_size :: nat where
  "loom_batch_size = 512"

definition loom_chunk ::
  "argsort \<Rightarrow> tokenizer \<Rightarrow> matrix \<Rightarrow> real \<Rightarrow> nat list \<times> real list \<times> int list \<Rightarrow> nat list \<Rightarrow>
   int list list \<times> metadata option pyvar \<Rightarrow> error + (int list list \<times> metadata option pyvar)" where
  "loom_chunk argsort tk m target_sum cols idx st =
     (case cols of (coding_miRNA_loc, norm_factor_vector, coding_miRNA_tokens) \<Rightarrow>
        (let subview_norm_array = map (normalize_cell m target_sum coding_miRNA_loc norm_factor_vector) idx
         in case mapE (\<lambda>gene_vector. tokenize_cell argsort gene_vector coding_miRNA_tokens)
                      subview_norm_array of
              Inl e \<Rightarrow> Inl e
            | Inr cells \<Rightarrow>
                (case chunk_metadata AttributeError tk m idx (snd st) of
                   Inl e \<Rightarrow> Inl e
                 | Inr md \<Rightarrow> Inr (fst st @ cells, md))))"

definition tokenize_loom ::
  "argsort \<Rightarrow> tokenizer \<Rightarrow> matrix \<Rightarrow> real \<Rightarrow>
   string list \<times> (error + (int list list \<times> metadata option))" where
  "tokenize_loom argsort tk data target_sum =
     (let file_cell_metadata = initial_metadata tk
      in case gene_columns tk (ensembl_id data) of
           Inl e \<Rightarrow> ([], Inl e)
         | Inr cols \<Rightarrow>
             (case select_cells data of (printed, filter_pass_loc) \<Rightarrow>
                (printed,
                 case foldE (loom_chunk argsort tk data target_sum cols)
                            (loom_scan loom_batch_size (length (X data)) filter_pass_loc)
                            ([], file_cell_metadata) of
                   Inl e \<Rightarrow> Inl e
                 | Inr st \<Rightarrow> return_cells st)))"

text \<open>The default values of the keyword arguments.\<close>

definition default_target_sum :: real where
  "default_target_sum = 10000"

definition default_chunk_size :: nat where
  "default_chunk_size = 512"

section \<open>\<^verbatim>\<open>tokenize_files\<close>\<close>

datatype file_format = Loom | H5ad

text \<open>
  \<^verbatim>\<open>cell_metadata[self.custom_attr_name_dict[k]] += file_cell_metadata[k]\<close>, for one
  attribute \<open>k\<close>.
\<close>

definition add_file_metadata ::
  "(string \<times> string) list \<Rightarrow> metadata option \<Rightarrow> string \<Rightarrow> metadata \<Rightarrow> error + metadata" where
  "add_file_metadata d file_cell_metadata k cell_metadata =
     (case dict_get (map_of d) k of
        Inl e \<Rightarrow> Inl e
      | Inr out \<Rightarrow>
          (case dict_get (map_of cell_metadata) out of
             Inl e \<Rightarrow> Inl e
           | Inr col \<Rightarrow>
               (case file_cell_metadata of
                  None \<Rightarrow> Inl TypeError
                | Some fcm \<Rightarrow>
                    (case dict_get (map_of fcm) k of
                       Inl e \<Rightarrow> Inl e
                     | Inr vs \<Rightarrow> Inr (AList.update out (col @ vs) cell_metadata)))))"

text \<open>
  The function opens one file (the loop over the files of a directory is commented out
  in the source), with the default target sum and chunk size. \<^verbatim>\<open>tokenized_cells\<close> is
  assigned the empty list in the first statement and returned in the last; no statement
  in between assigns it or appends to it.
\<close>

definition tokenize_files ::
  "argsort \<Rightarrow> tokenizer \<Rightarrow> matrix \<Rightarrow> file_format \<Rightarrow>
   string list \<times> (error + (int list list \<times> metadata option))" where
  "tokenize_files argsort tk data_directory file_format =
     (let tokenized_cells = [];
          cell_attr = (case custom_attr_name_dict tk of Some d \<Rightarrow> map fst d | None \<Rightarrow> []);
          cell_metadata = (case custom_attr_name_dict tk of
                             Some d \<Rightarrow> foldl (\<lambda>acc attr_key. AList.update attr_key [] acc) [] (map snd d)
                           | None \<Rightarrow> [])
      in case (case file_format of
                 Loom \<Rightarrow> tokenize_loom argsort tk data_directory default_target_sum
               | H5ad \<Rightarrow> tokenize_anndata argsort tk data_directory default_target_sum
                           default_chunk_size) of
           (printed, res) \<Rightarrow>
             ((''Tokenizing '' @ file_path data_directory) # printed,
              case res of
                Inl e \<Rightarrow> Inl e
              | Inr (file_tokenized_cells, file_cell_metadata) \<Rightarrow>
                  (case custom_attr_name_dict tk of
                     Some d \<Rightarrow>
                       (case foldE (add_file_metadata d file_cell_metadata) cell_attr cell_metadata of
                          Inl e \<Rightarrow> Inl e
                        | Inr cell_metadata' \<Rightarrow> Inr (tokenized_cells, Some cell_metadata'))
                   | None \<Rightarrow> Inr (tokenized_cells, None))))"

section \<open>\<^verbatim>\<open>create_dataset\<close>\<close>

text \<open>A row of the dataset: a dictionary from column name to value, in column order.\<close>

type_synonym row = "(string \<times> pyval) list"

definition py_len :: "pyval \<Rightarrow> error + pyval" where
  "py_len v =
     (case v of
        PList xs \<Rightarrow> Inr (PInt (int (length xs)))
      | PStr s \<Rightarrow> Inr (PInt (int (length s)))
      | _ \<Rightarrow> Inl TypeError)"

text \<open>\<^verbatim>\<open>v[0:2048]\<close>\<close>

definition crop :: "pyval \<Rightarrow> error + pyval" where
  "crop v =
     (case v of
        PList xs \<Rightarrow> Inr (PList (take 2048 xs))
      | PStr s \<Rightarrow> Inr (PStr (take 2048 s))
      | _ \<Rightarrow> Inl TypeError)"

definition format_cell_features :: "bool \<Rightarrow> row \<Rightarrow> error + row" where
  "format_cell_features keep_uncropped_input_ids example =
     (case (if keep_uncropped_input_ids
            then (case dict_get (map_of example) ''input_ids'' of
                    Inl e \<Rightarrow> Inl e
                  | Inr ids \<Rightarrow>
                      (let example1 = AList.update ''input_ids_uncropped'' ids example
                       in case dict_get (map_of example1) ''input_ids'' of
                            Inl e \<Rightarrow> Inl e
                          | Inr ids1 \<Rightarrow>
                              (case py_len ids1 of
                                 Inl e \<Rightarrow> Inl e
                               | Inr n \<Rightarrow> Inr (AList.update ''length_uncropped'' n example1))))
            else Inr example) of
        Inl e \<Rightarrow> Inl e
      | Inr example2 \<Rightarrow>
          (case dict_get (map_of example2) ''input_ids'' of
             Inl e \<Rightarrow> Inl e
           | Inr ids \<Rightarrow>
               (case crop ids of
                  Inl e \<Rightarrow> Inl e
                | Inr cropped \<Rightarrow>
                    (let example3 = AList.update ''input_ids'' cropped example2
                     in case dict_get (map_of example3) ''input_ids'' of
                          Inl e \<Rightarrow> Inl e
                        | Inr ids3 \<Rightarrow>
                            (case py_len ids3 of
                               Inl e \<Rightarrow> Inl e
                             | Inr n \<Rightarrow> Inr (AList.update ''length'' n example3))))))"

text \<open>\<^verbatim>\<open>dataset_dict.update(cell_metadata)\<close>\<close>

definition dict_update :: "('k \<times> 'v) list \<Rightarrow> ('k \<times> 'v) list \<Rightarrow> ('k \<times> 'v) list" where
  "dict_update d other = foldl (\<lambda>acc (k, v). AList.update k v acc) d other"

text \<open>
  \<^verbatim>\<open>Dataset.from_dict\<close>, \<^verbatim>\<open>Dataset.from_generator\<close> and \<^verbatim>\<open>Dataset.map\<close> belong to the
  datasets library. What is modelled of them: a table is the list of its rows;
  \<^verbatim>\<open>from_dict\<close> takes columns of one common length and fails otherwise;
  \<^verbatim>\<open>from_generator\<close> collects the rows that the generator yields; \<^verbatim>\<open>map\<close> applies
  the function to every row, in order.
\<close>

definition from_dict :: "metadata \<Rightarrow> error + row list" where
  "from_dict dataset_dict =
     (case dataset_dict of
        [] \<Rightarrow> Inr []
      | (k0, col0) # rest \<Rightarrow>
          (if \<forall>(k, col) \<in> set rest. length col = length col0
           then Inr (map (\<lambda>i. map (\<lambda>(k, col). (k, col ! i)) dataset_dict) [0..<length col0])
           else Inl ArrowInvalid))"

text \<open>\<^verbatim>\<open>for i in range(len(tokenized_cells)): yield {k: dataset_dict[k][i] for k in
  dataset_dict.keys()}\<close>\<close>

definition dict_generator :: "nat \<Rightarrow> metadata \<Rightarrow> error + row list" where
  "dict_generator n dataset_dict =
     mapE (\<lambda>i. mapE (\<lambda>(k, col). if i < length col then Inr (k, col ! i) else Inl IndexError)
                     dataset_dict)
          [0..<n]"

definition create_dataset ::
  "tokenizer \<Rightarrow> int list list \<Rightarrow> metadata option \<Rightarrow> bool \<Rightarrow> bool \<Rightarrow> string list \<times> (error + row list)" where
  "create_dataset tk tokenized_cells cell_metadata use_generator keep_uncropped_input_ids =
     ([''Creating dataset.''],
      let dataset_dict0 = [(''input_ids'', map (\<lambda>ts. PList (map PInt ts)) tokenized_cells)]
      in case (case custom_attr_name_dict tk of
                 None \<Rightarrow> Inr dataset_dict0
               | Some _ \<Rightarrow>
                   (case cell_metadata of
                      None \<Rightarrow> Inl TypeError
                    | Some md \<Rightarrow> Inr (dict_update dataset_dict0 md))) of
           Inl e \<Rightarrow> Inl e
         | Inr dataset_dict \<Rightarrow>
             (case (if use_generator then dict_generator (length tokenized_cells) dataset_dict
                    else from_dict dataset_dict) of
                Inl e \<Rightarrow> Inl e
              | Inr output_dataset \<Rightarrow>
                  mapE (format_cell_features keep_uncropped_input_ids) output_dataset))"

section \<open>\<^verbatim>\<open>tokenize_data\<close>\<close>

text \<open>The result is what is printed and the table handed to \<^verbatim>\<open>save_to_disk\<close>;
  \<open>output_path\<close> is the joined path of the output directory and prefix.\<close>

definition tokenize_data ::
  "argsort \<Rightarrow> tokenizer \<Rightarrow> matrix \<Rightarrow> string \<Rightarrow> file_format \<Rightarrow> bool \<Rightarrow> string list \<times> (error + row list)" where
  "tokenize_data argsort tk data_directory output_path file_format use_generator =
     (case tokenize_files argsort tk data_directory file_format of
        (printed, Inl e) \<Rightarrow> (printed, Inl e)
      | (printed, Inr (tokenized_cells, cell_metadata)) \<Rightarrow>
          (case create_dataset tk tokenized_cells cell_metadata use_generator False of
             (printed', Inl e) \<Rightarrow> (printed @ printed', Inl e)
           | (printed', Inr tokenized_dataset) \<Rightarrow>
               (printed @ printed' @
                  [''Inside tokeniser function ::: Saving file to... '' @ output_path],
                Inr tokenized_dataset)))"

section \<open>Concrete inputs\<close>

text \<open>The catalog of two genes and the cell of the specification's worked example, in a
  matrix that has a third gene column, unknown to the catalog, and no pass/fail flag.\<close>

definition example_tokenizer :: tokenizer where
  "example_tokenizer =
     \<lparr>custom_attr_name_dict = None, nproc = 1,
      gene_median_dict = [''GENE_A'' \<mapsto> 1, ''GENE_B'' \<mapsto> 2],
      gene_token_dict = [''GENE_A'' \<mapsto> 0, ''GENE_B'' \<mapsto> 1]\<rparr>"

definition example_matrix :: matrix where
  "example_matrix =
     \<lparr>file_path = ''cells.h5ad'',
      ensembl_id = [''GENE_A'', ''GENE_X'', ''GENE_B''],
      n_counts = [14],
      filter_pass = None,
      attrs = Map.empty,
      X = [[4, 7, 10]]\<rparr>"

text \<open>A tokenizer that copies the attribute \<^verbatim>\<open>cell_type\<close> into the column \<^verbatim>\<open>type\<close>, and a
  matrix of four cells, the second of which fails the filter.\<close>

definition annotated_tokenizer :: tokenizer where
  "annotated_tokenizer =
     \<lparr>custom_attr_name_dict = Some [(''cell_type'', ''type'')], nproc = 1,
      gene_median_dict = [''GENE_A'' \<mapsto> 1, ''GENE_B'' \<mapsto> 2],
      gene_token_dict = [''GENE_A'' \<mapsto> 0, ''GENE_B'' \<mapsto> 1]\<rparr>"

definition cohort_matrix :: matrix where
  "cohort_matrix =
     \<lparr>file_path = ''cohort.h5ad'',
      ensembl_id = [''GENE_A'', ''GENE_X'', ''GENE_B''],
      n_counts = [14, 5, 20, 8],
      filter_pass = Some [1, 0, 1, 1],
      attrs = [''cell_type'' \<mapsto> [PStr ''T'', PStr ''B'', PStr ''NK'', PStr ''T'']],
      X = [[4, 0, 10], [1, 2, 2], [0, 20, 0], [6, 0, 2]]\<rparr>"


definition rejected_matrix :: matrix where
  "rejected_matrix =
     \<lparr>file_path = ''cells.h5ad'',
      ensembl_id = [''GENE_A'', ''GENE_X'', ''GENE_B''],
      n_counts = [14],
      filter_pass = Some [0],
      attrs = Map.empty,
      X = [[4, 7, 10]]\<rparr>"

section \<open>The chunk loop in closed form\<close>

text \<open>The body of the chunk loop of both functions, with the token sequence of every cell
  of the chunk written out: what the body computes when no cell fails to tokenize.\<close>

definition chunk_body ::
  "(string \<Rightarrow> error) \<Rightarrow> argsort \<Rightarrow> tokenizer \<Rightarrow> matrix \<Rightarrow> real \<Rightarrow> nat list \<times> real list \<times> int list \<Rightarrow>
   nat list \<Rightarrow> int list list \<times> metadata option pyvar \<Rightarrow> error + (int list list \<times> metadata option pyvar)" where
  "chunk_body missing argsort tk m target_sum cols idx st =
     (case cols of (loc, nfv, toks) \<Rightarrow>
        (case chunk_metadata missing tk m idx (snd st) of
           Inl e \<Rightarrow> Inl e
         | Inr md \<Rightarrow>
             Inr (fst st @ map (\<lambda>i. map (\<lambda>p. toks ! p)
                     (ranked_positions argsort (normalize_cell m target_sum loc nfv i))) idx, md)))"

text \<open>What both functions return after the head, when no cell can fail to tokenize: the
  included cells in one chunk, or no chunk at all when there is none.\<close>

definition one_chunk ::
  "(string \<Rightarrow> error) \<Rightarrow> argsort \<Rightarrow> tokenizer \<Rightarrow> matrix \<Rightarrow> real \<Rightarrow> nat list \<times> real list \<times> int list \<Rightarrow>
   error + (int list list \<times> metadata option)" where
  "one_chunk missing argsort tk m target_sum cols =
     (case (if snd (select_cells m) = [] then Inr ([], initial_metadata tk)
            else chunk_body missing argsort tk m target_sum cols (snd (select_cells m))
                   ([], initial_metadata tk)) of
        Inl e \<Rightarrow> Inl e
      | Inr st \<Rightarrow> return_cells st)"


section \<open>The sorting order and the instance of the sorting routine\<close>

lemma sort_lt_irrefl: "\<not> sort_lt a a"
  by (cases a) (auto simp: sort_lt_def)

lemma sort_lt_trans: "sort_lt a b \<Longrightarrow> sort_lt b c \<Longrightarrow> sort_lt a c"
  by (cases a; cases b; cases c) (auto simp: sort_lt_def)

lemma sort_le_trans: "\<not> sort_lt b a \<Longrightarrow> \<not> sort_lt c b \<Longrightarrow> \<not> sort_lt c a"
  by (cases a; cases b; cases c) (auto simp: sort_lt_def)

lemma sort_lt_asym: "sort_lt a b \<Longrightarrow> \<not> sort_lt b a"
  by (cases a; cases b) (auto simp: sort_lt_def)

lemma set_insert_index: "set (insert_index ks i js) = insert i (set js)"
  by (induction js) auto

lemma distinct_insert_index: "i \<notin> set js \<Longrightarrow> distinct js \<Longrightarrow> distinct (insert_index ks i js)"
  by (induction js) (auto simp: set_insert_index)

lemma sorted_insert_index:
  "sorted_wrt (\<lambda>i j. \<not> sort_lt (ks ! j) (ks ! i)) js \<Longrightarrow>
   sorted_wrt (\<lambda>i j. \<not> sort_lt (ks ! j) (ks ! i)) (insert_index ks i js)"
proof (induction js)
  case Nil
  then show ?case by simp
next
  case (Cons j js)
  show ?case
  proof (cases "sort_lt (ks ! j) (ks ! i)")
    case True
    then show ?thesis using Cons
      by (auto simp: set_insert_index dest: sort_lt_asym)
  next
    case False
    then show ?thesis using Cons
      by (auto dest: sort_le_trans)
  qed
qed

lemma foldr_insert_index:
  "set (foldr (insert_index ks) is []) = set is \<and>
   (distinct is \<longrightarrow> distinct (foldr (insert_index ks) is [])) \<and>
   sorted_wrt (\<lambda>i j. \<not> sort_lt (ks ! j) (ks ! i)) (foldr (insert_index ks) is [])"
  by (induction "is") (auto simp: set_insert_index distinct_insert_index sorted_insert_index)

lemma insertion_argsort_spec: "argsort_spec insertion_argsort"
  unfolding argsort_spec_def insertion_argsort_def
  using foldr_insert_index [of _ "[0..<n]" for n] by auto




section \<open>One cell\<close>

lemma mapE_Inr_iff: "mapE f xs = Inr ys \<longleftrightarrow> list_all2 (\<lambda>x y. f x = Inr y) xs ys"
proof (induction xs arbitrary: ys)
  case Nil
  then show ?case by auto
next
  case (Cons x xs)
  show ?case
    by (cases ys; cases "f x"; cases "mapE f xs") (auto simp: Cons.IH [symmetric])
qed

lemma mapE_total: "(\<And>x. x \<in> set xs \<Longrightarrow> f x = Inr (g x)) \<Longrightarrow> mapE f xs = Inr (map g xs)"
  by (induction xs) auto

lemma filter_nth_upt: "filter P v = map (\<lambda>i. v ! i) [i \<leftarrow> [0..<length v]. P (v ! i)]"
proof -
  have "filter P v = filter P (map (\<lambda>i. v ! i) [0..<length v])"
    by (simp add: map_nth)
  also have "\<dots> = map (\<lambda>i. v ! i) [i \<leftarrow> [0..<length v]. P (v ! i)]"
    by (simp add: filter_map comp_def)
  finally show ?thesis .
qed

lemma set_nonzero: "set (nonzero v) = {i. i < length v \<and> v ! i \<noteq> Fin 0}"
  by (auto simp: nonzero_def)


lemma map_nonzero: "map (\<lambda>i. v ! i) (nonzero v) = [x \<leftarrow> v. x \<noteq> Fin 0]"
  unfolding nonzero_def by (rule filter_nth_upt [symmetric])


lemma take_idx_Inr: "\<forall>i \<in> set idx. i < length xs \<Longrightarrow> take_idx xs idx = Inr (map (\<lambda>i. xs ! i) idx)"
  by (simp add: take_idx_def)

lemma take_idx_nonzero: "length xs = length v \<Longrightarrow> take_idx xs (nonzero v) = Inr (map (\<lambda>i. xs ! i) (nonzero v))"
  by (rule take_idx_Inr) (simp add: set_nonzero)

lemma argsort_spec_set: "argsort_spec argsort \<Longrightarrow> set (argsort ks) = {0..<length ks}"
  by (simp add: argsort_spec_def)




lemma rank_genes_Inr:
  assumes "argsort_spec argsort" and "length ts = length vs"
  shows "rank_genes argsort vs ts = Inr (map (\<lambda>p. ts ! p) (argsort (map np_neg vs)))"
  unfolding rank_genes_def Let_def
  by (rule take_idx_Inr) (simp add: argsort_spec_set [OF assms(1)] assms(2))

lemma tokenize_cell_Inr:
  assumes "argsort_spec argsort" and "length gene_tokens = length gene_vector"
  shows "tokenize_cell argsort gene_vector gene_tokens =
         Inr (map (\<lambda>i. gene_tokens ! i) (ranked_positions argsort gene_vector))"
proof -
  let ?mask = "nonzero gene_vector"
  let ?vs = "map (\<lambda>i. gene_vector ! i) ?mask"
  let ?ts = "map (\<lambda>i. gene_tokens ! i) ?mask"
  have in_range: "\<forall>p \<in> set (argsort (map np_neg ?vs)). p < length ?mask"
    by (simp add: argsort_spec_set [OF assms(1)])
  have "tokenize_cell argsort gene_vector gene_tokens = rank_genes argsort ?vs ?ts"
    by (simp add: tokenize_cell_def Let_def take_idx_nonzero assms(2))
  also have "\<dots> = Inr (map (\<lambda>p. ?ts ! p) (argsort (map np_neg ?vs)))"
    by (rule rank_genes_Inr [OF assms(1)]) simp
  also have "map (\<lambda>p. ?ts ! p) (argsort (map np_neg ?vs)) =
             map (\<lambda>i. gene_tokens ! i) (ranked_positions argsort gene_vector)"
    using in_range by (simp add: ranked_positions_def)
  finally show ?thesis .
qed






lemma desc_Fin [simp]: "desc (Fin x) (Fin y) \<longleftrightarrow> y \<le> x"
  by (auto simp: desc_def sort_lt_def)

section \<open>The gene columns\<close>

lemma mapE_length: "mapE f xs = Inr ys \<Longrightarrow> length ys = length xs"
  by (simp add: mapE_Inr_iff list_all2_lengthD)

lemma mapE_nth: "mapE f xs = Inr ys \<Longrightarrow> p < length xs \<Longrightarrow> f (xs ! p) = Inr (ys ! p)"
  by (auto simp: mapE_Inr_iff dest: list_all2_nthD)

lemma dict_get_Inr: "dict_get d k = Inr v \<longleftrightarrow> d k = Some v"
  by (simp add: dict_get_def split: option.splits)


lemma gene_columns_factors:
  assumes "gene_columns tk ids = Inr (loc, nfv, toks)"
  shows "length nfv = length loc"
    and "p < length loc \<Longrightarrow> gene_median_dict tk (ids ! (loc ! p)) = Some (nfv ! p)"
proof -
  have m: "mapE (dict_get (gene_median_dict tk)) (map (\<lambda>j. ids ! j) loc) = Inr nfv"
    using assms by (auto simp: gene_columns_def Let_def split: sum.splits)
  show "length nfv = length loc"
    using mapE_length [OF m] by simp
  show "gene_median_dict tk (ids ! (loc ! p)) = Some (nfv ! p)" if "p < length loc"
    using mapE_nth [OF m, of p] that by (simp add: dict_get_Inr)
qed

lemma gene_columns_tokens:
  assumes "gene_columns tk ids = Inr (loc, nfv, toks)"
  shows "length toks = length loc"
    and "p < length loc \<Longrightarrow> gene_token_dict tk (ids ! (loc ! p)) = Some (toks ! p)"
proof -
  have m: "mapE (dict_get (gene_token_dict tk)) (map (\<lambda>j. ids ! j) loc) = Inr toks"
    using assms by (auto simp: gene_columns_def Let_def split: sum.splits)
  show "length toks = length loc"
    using mapE_length [OF m] by simp
  show "gene_token_dict tk (ids ! (loc ! p)) = Some (toks ! p)" if "p < length loc"
    using mapE_nth [OF m, of p] that by (simp add: dict_get_Inr)
qed






section \<open>The token sequence of a cell\<close>



section \<open>The chunks of a file\<close>

lemma csr_row_tokenize_cell:
  "(case take_idx gene_tokens (csr_indices row) of
      Inl e \<Rightarrow> Inl e
    | Inr ts \<Rightarrow> rank_genes argsort (csr_data row) ts) = tokenize_cell argsort row gene_tokens"
proof -
  have "csr_indices row = nonzero row"
    by (simp add: csr_indices_def nonzero_def)
  moreover have "csr_data row = map (\<lambda>i. row ! i) (nonzero row)"
    by (simp add: csr_data_def map_nonzero)
  moreover have "take_idx row (nonzero row) = Inr (map (\<lambda>i. row ! i) (nonzero row))"
    by (rule take_idx_nonzero) simp
  ultimately show ?thesis
    by (simp add: tokenize_cell_def Let_def split: sum.splits)
qed

lemma anndata_chunk_loom_chunk:
  "anndata_chunk argsort tk m target_sum cols idx st =
     (case cols of (loc, nfv, toks) \<Rightarrow>
        (case mapE (\<lambda>gene_vector. tokenize_cell argsort gene_vector toks)
                   (map (normalize_cell m target_sum loc nfv) idx) of
           Inl e \<Rightarrow> Inl e
         | Inr cells \<Rightarrow>
             (case chunk_metadata KeyError tk m idx (snd st) of
                Inl e \<Rightarrow> Inl e
              | Inr md \<Rightarrow> Inr (fst st @ cells, md))))"
  by (simp add: anndata_chunk_def csr_row_tokenize_cell split: prod.splits)

text \<open>The token sequence of cell \<open>i\<close>, once the sorting routine meets its contract.\<close>

lemma length_normalize_cell:
  "length (normalize_cell m target_sum loc nfv i) = min (length loc) (length nfv)"
  by (simp add: normalize_cell_def)

lemma cells_Inr:
  assumes "argsort_spec argsort" and "length nfv = length loc" and "length toks = length loc"
  shows "mapE (\<lambda>gene_vector. tokenize_cell argsort gene_vector toks)
              (map (normalize_cell m target_sum loc nfv) idx) =
         Inr (map (\<lambda>i. map (\<lambda>p. toks ! p)
                          (ranked_positions argsort (normalize_cell m target_sum loc nfv i))) idx)"
proof -
  have "mapE (\<lambda>gene_vector. tokenize_cell argsort gene_vector toks)
             (map (normalize_cell m target_sum loc nfv) idx) =
        Inr (map (\<lambda>v. map (\<lambda>p. toks ! p) (ranked_positions argsort v))
                 (map (normalize_cell m target_sum loc nfv) idx))"
  proof (rule mapE_total)
    fix v assume "v \<in> set (map (normalize_cell m target_sum loc nfv) idx)"
    then have "length toks = length v"
      using assms(2,3) by (auto simp: length_normalize_cell)
    then show "tokenize_cell argsort v toks = Inr (map (\<lambda>p. toks ! p) (ranked_positions argsort v))"
      by (rule tokenize_cell_Inr [OF assms(1)])
  qed
  then show ?thesis by (simp add: comp_def)
qed

lemma extend_metadata_append:
  "extend_metadata missing m (xs @ ys) d =
     (case extend_metadata missing m xs d of
        Inl e \<Rightarrow> Inl e
      | Inr d' \<Rightarrow> extend_metadata missing m ys d')"
  unfolding extend_metadata_def
  by (induction d) (auto split: sum.splits option.splits)

lemma chunk_metadata_append:
  "chunk_metadata missing tk m (xs @ ys) v =
     (case chunk_metadata missing tk m xs v of
        Inl e \<Rightarrow> Inl e
      | Inr v' \<Rightarrow> chunk_metadata missing tk m ys v')"
  by (auto simp: chunk_metadata_def extend_metadata_append split: option.splits pyvar.splits sum.splits)

lemma anndata_chunk_body:
  assumes "argsort_spec argsort" and "length nfv = length loc" and "length toks = length loc"
  shows "anndata_chunk argsort tk m target_sum (loc, nfv, toks) =
         chunk_body KeyError argsort tk m target_sum (loc, nfv, toks)"
  by (intro ext) (simp add: anndata_chunk_loom_chunk cells_Inr [OF assms] chunk_body_def)


lemma chunk_body_append:
  "chunk_body missing argsort tk m target_sum cols (xs @ ys) st =
     (case chunk_body missing argsort tk m target_sum cols xs st of
        Inl e \<Rightarrow> Inl e
      | Inr st' \<Rightarrow> chunk_body missing argsort tk m target_sum cols ys st')"
  by (auto simp: chunk_body_def chunk_metadata_append split: prod.splits sum.splits)

lemma foldE_chunk_body:
  "cs \<noteq> [] \<Longrightarrow>
   foldE (chunk_body missing argsort tk m target_sum cols) cs st =
   chunk_body missing argsort tk m target_sum cols (concat cs) st"
proof (induction cs arbitrary: st)
  case Nil
  then show ?case by simp
next
  case (Cons c cs)
  show ?case
  proof (cases "cs = []")
    case True
    then show ?thesis by (simp split: sum.splits)
  next
    case False
    then show ?thesis
      using Cons.IH by (simp add: chunk_body_append split: sum.splits)
  qed
qed

lemma py_range_Nil: "py_range i n c = [] \<longleftrightarrow> \<not> (i < n \<and> 0 < c)"
  by (subst py_range.simps) simp

lemma concat_range_chunks:
  "0 < c \<Longrightarrow> concat (map (\<lambda>i. take c (drop i xs)) (py_range i (length xs) c)) = drop i xs"
proof (induction i "length xs" c rule: py_range.induct)
  case (1 i c)
  show ?case
  proof (cases "i < length xs")
    case True
    have "concat (map (\<lambda>i. take c (drop i xs)) (py_range i (length xs) c)) =
          take c (drop i xs) @ concat (map (\<lambda>i. take c (drop i xs)) (py_range (i + c) (length xs) c))"
      using True 1(2) by (subst py_range.simps) simp
    also have "\<dots> = take c (drop i xs) @ drop (i + c) xs"
      using 1 True by simp
    also have "\<dots> = drop i xs"
      by (metis add.commute append_take_drop_id drop_drop)
    finally show ?thesis .
  next
    case False
    then show ?thesis by (subst py_range.simps) simp
  qed
qed

lemma foldE_map: "foldE f (map g xs) st = foldE (\<lambda>x. f (g x)) xs st"
  by (induction xs arbitrary: st) (auto split: sum.splits)

lemma foldE_range_chunks:
  assumes "0 < c"
  shows "foldE (\<lambda>i. chunk_body missing argsort tk m target_sum cols (take c (drop i xs)))
               (py_range 0 (length xs) c) st =
         (if xs = [] then Inr st else chunk_body missing argsort tk m target_sum cols xs st)"
proof -
  let ?cs = "map (\<lambda>i. take c (drop i xs)) (py_range 0 (length xs) c)"
  have fold: "foldE (\<lambda>i. chunk_body missing argsort tk m target_sum cols (take c (drop i xs)))
                    (py_range 0 (length xs) c) st =
              foldE (chunk_body missing argsort tk m target_sum cols) ?cs st"
    by (simp add: foldE_map)
  show ?thesis
  proof (cases "xs = []")
    case True
    then show ?thesis by (simp add: py_range.simps)
  next
    case False
    then have "?cs \<noteq> []"
      using assms by (simp add: py_range_Nil)
    then show ?thesis
      using False fold concat_range_chunks [OF assms, of xs 0]
      by (simp add: foldE_chunk_body)
  qed
qed








lemma tokenize_anndata_one_chunk:
  assumes "argsort_spec argsort" and "gene_columns tk (ensembl_id adata) = Inr cols"
    and "0 < chunk_size"
  shows "tokenize_anndata argsort tk adata target_sum chunk_size =
         (fst (select_cells adata), one_chunk KeyError argsort tk adata target_sum cols)"
proof -
  obtain loc nfv toks where cols: "cols = (loc, nfv, toks)"
    by (cases cols) auto
  have len: "length nfv = length loc" "length toks = length loc"
    using gene_columns_factors(1) gene_columns_tokens(1) assms(2) cols by auto
  show ?thesis
    using assms(2,3)
    by (simp add: tokenize_anndata_def Let_def cols anndata_chunk_body [OF assms(1) len]
        foldE_range_chunks one_chunk_def split: prod.splits)
qed


text \<open>
  Claim C5. With a sorting routine that meets its contract, \<open>tokenize_anndata\<close> returns
  the same printed lines and the same result (the token sequences, the metadata columns,
  or the error) for any two chunk sizes of at least 1: the sequences and the metadata
  rows of the chunks, appended in chunk order, do not depend on where the chunks are cut.
  A chunk size of at least the number of included cells is the traversal in a single
  chunk.
\<close>

theorem tokenize_anndata_chunk_size:
  assumes "argsort_spec argsort" and "1 \<le> chunk_size" and "1 \<le> chunk_size'"
  shows "tokenize_anndata argsort tk adata target_sum chunk_size =
         tokenize_anndata argsort tk adata target_sum chunk_size'"
proof (cases "gene_columns tk (ensembl_id adata)")
  case (Inl e)
  then show ?thesis
    by (simp add: tokenize_anndata_def)
next
  case (Inr cols)
  show ?thesis
    using assms(2,3)
    by (simp add: tokenize_anndata_one_chunk [OF assms(1) Inr])
qed

theorem tokenize_anndata_chunk_size_witness:
  "argsort_spec insertion_argsort \<and> (1 :: nat) \<le> 2 \<and> (1 :: nat) \<le> 512 \<and>
   tokenize_anndata insertion_argsort annotated_tokenizer cohort_matrix 10000 2 =
     tokenize_anndata insertion_argsort annotated_tokenizer cohort_matrix 10000 512 \<and>
   tokenize_anndata insertion_argsort annotated_tokenizer cohort_matrix 10000 2 =
     ([], Inr ([[1, 0], [], [0, 1]], Some [(''cell_type'', [PStr ''T'', PStr ''NK'', PStr ''T''])]))"
proof -
  have a: "(1 :: nat) \<le> 2" and b: "(1 :: nat) \<le> 512" by simp_all
  have v: "tokenize_anndata insertion_argsort annotated_tokenizer cohort_matrix 10000 2 =
     ([], Inr ([[1, 0], [], [0, 1]], Some [(''cell_type'', [PStr ''T'', PStr ''NK'', PStr ''T''])]))"
    by code_simp
  from tokenize_anndata_chunk_size [OF insertion_argsort_spec a b]
  show ?thesis
    using insertion_argsort_spec v by simp
qed





lemma loom_scan_Nil: "loom_scan b n [] = []"
  by (simp add: loom_scan_def filter_empty_conv)

text \<open>
  Claim C10. The tokenizer has no custom attributes, no cell of the matrix is included
  (the flag passes none, or the matrix has no cell), every eligible gene of the matrix
  has a token and the chunk size is at least 1, so that nothing fails before the loop.
  Then the loop body never runs, \<^verbatim>\<open>file_cell_metadata\<close> is never assigned, and both
  \<open>tokenize_anndata\<close> and \<open>tokenize_loom\<close> raise the unbound-local error at their
  return statement instead of returning an empty result.
\<close>

theorem no_included_cell_unbound_local:
  assumes "custom_attr_name_dict tk = None"
    and "snd (select_cells m) = []"
    and "gene_columns tk (ensembl_id m) = Inr cols"
    and "1 \<le> chunk_size"
  shows "snd (tokenize_anndata argsort tk m target_sum chunk_size) =
           Inl (UnboundLocalError ''file_cell_metadata'') \<and>
         snd (tokenize_loom argsort tk m target_sum) =
           Inl (UnboundLocalError ''file_cell_metadata'')"
proof -
  obtain printed where sc: "select_cells m = (printed, [])"
    using assms(2) by (cases "select_cells m") auto
  have r: "py_range 0 0 chunk_size = []"
    by (simp add: py_range_Nil)
  show ?thesis
    using assms(1,3,4)
    by (simp add: tokenize_anndata_def tokenize_loom_def sc r loom_scan_Nil
        initial_metadata_def return_cells_def)
qed

theorem no_included_cell_unbound_local_witness:
  "custom_attr_name_dict example_tokenizer = None \<and>
   snd (select_cells rejected_matrix) = [] \<and>
   gene_columns example_tokenizer (ensembl_id rejected_matrix) = Inr ([0, 2], [1, 2], [0, 1]) \<and>
   (1 :: nat) \<le> 512 \<and>
   snd (tokenize_anndata insertion_argsort example_tokenizer rejected_matrix 10000 512) =
     Inl (UnboundLocalError ''file_cell_metadata'') \<and>
   snd (tokenize_loom insertion_argsort example_tokenizer rejected_matrix 10000) =
     Inl (UnboundLocalError ''file_cell_metadata'')"
proof -
  have a: "custom_attr_name_dict example_tokenizer = None" by code_simp
  have b: "snd (select_cells rejected_matrix) = []" by code_simp
  have c: "gene_columns example_tokenizer (ensembl_id rejected_matrix) = Inr ([0, 2], [1, 2], [0, 1])"
    by code_simp
  have d: "(1 :: nat) \<le> 512" by simp
  from no_included_cell_unbound_local [OF a b c d]
  show ?thesis
    using a b c d by simp
qed






































lemma mapE_list_all2:
  "(\<And>x. x \<in> set xs \<Longrightarrow> \<exists>y. f x = Inr y \<and> P x y) \<Longrightarrow>
   \<exists>ys. mapE f xs = Inr ys \<and> list_all2 P xs ys"
proof (induction xs)
  case Nil
  then show ?case by simp
next
  case (Cons x xs)
  obtain y where y: "f x = Inr y" "P x y"
    using Cons.prems by auto
  obtain ys where ys: "mapE f xs = Inr ys" "list_all2 P xs ys"
    using Cons by auto
  show ?case
    using y ys by simp
qed

lemma set_update_subset: "set (AList.update k v al) \<subseteq> insert (k, v) (set al)"
  by (induction al) auto

lemma set_dict_update: "set (dict_update d other) \<subseteq> set d \<union> set other"
  unfolding dict_update_def
proof (induction other arbitrary: d)
  case Nil
  then show ?case by simp
next
  case (Cons p other)
  obtain k v where p: "p = (k, v)" by (cases p)
  have "set (foldl (\<lambda>acc (k, v). AList.update k v acc) (AList.update k v d) other) \<subseteq>
        set (AList.update k v d) \<union> set other"
    by (rule Cons.IH)
  moreover have "set (AList.update k v d) \<subseteq> insert (k, v) (set d)"
    by (rule set_update_subset)
  ultimately have "set (foldl (\<lambda>acc (k, v). AList.update k v acc) (AList.update k v d) other) \<subseteq>
        insert (k, v) (set d) \<union> set other"
    by blast
  then show ?case
    by (simp add: p)
qed

lemma dict_update_not_Nil: "d \<noteq> [] \<Longrightarrow> dict_update d other \<noteq> []"
  unfolding dict_update_def
proof (induction other arbitrary: d)
  case Nil
  then show ?case by simp
next
  case (Cons p other)
  obtain k v where p: "p = (k, v)" by (cases p)
  have "AList.update k v d \<noteq> []"
    by (cases d) simp_all
  from Cons.IH [OF this] show ?case
    by (simp add: p)
qed

lemma map_of_dict_update_other:
  "k \<notin> set (map fst other) \<Longrightarrow> map_of (dict_update d other) k = map_of d k"
  unfolding dict_update_def
  by (induction other arbitrary: d) (auto simp: update_conv')

lemma from_dict_rows:
  assumes "dataset_dict \<noteq> []" and "\<forall>(k, col) \<in> set dataset_dict. length col = n"
  shows "from_dict dataset_dict =
         Inr (map (\<lambda>i. map (\<lambda>(k, col). (k, col ! i)) dataset_dict) [0..<n])"
proof -
  obtain k0 col0 rest where d: "dataset_dict = (k0, col0) # rest"
    using assms(1) by (cases dataset_dict) auto
  have "length col0 = n" "\<forall>(k, col) \<in> set rest. length col = length col0"
    using assms(2) d by auto
  then show ?thesis
    by (simp add: from_dict_def d)
qed

lemma dict_generator_rows:
  assumes "\<forall>(k, col) \<in> set dataset_dict. length col = n"
  shows "dict_generator n dataset_dict =
         Inr (map (\<lambda>i. map (\<lambda>(k, col). (k, col ! i)) dataset_dict) [0..<n])"
  unfolding dict_generator_def
proof (rule mapE_total)
  fix i assume "i \<in> set [0..<n]"
  then have i: "i < n" by simp
  show "mapE (\<lambda>(k, col). if i < length col then Inr (k, col ! i) else Inl IndexError) dataset_dict =
        Inr (map (\<lambda>(k, col). (k, col ! i)) dataset_dict)"
    by (rule mapE_total) (use assms i in auto)
qed

lemma map_of_row:
  "map_of (map (\<lambda>(k, col). (k, col ! i)) dataset_dict) k =
   map_option (\<lambda>col. col ! i) (map_of dataset_dict k)"
  by (induction dataset_dict) auto

lemma format_cell_features_list:
  assumes "map_of example ''input_ids'' = Some (PList xs)"
  shows "\<exists>example'. format_cell_features keep_uncropped_input_ids example = Inr example' \<and>
           map_of example' ''input_ids'' = Some (PList (take 2048 xs)) \<and>
           map_of example' ''length'' = Some (PInt (int (min (length xs) 2048)))"
  using assms
  by (cases keep_uncropped_input_ids)
     (simp_all add: format_cell_features_def dict_get_def update_conv' py_len_def crop_def Let_def)

lemma create_dataset_dict:
  assumes "custom_attr_name_dict tk = None \<or>
           (\<exists>md. cell_metadata = Some md \<and> ''input_ids'' \<notin> set (map fst md) \<and>
                 list_all (\<lambda>(k, col). length col = length tokenized_cells) md)"
  shows "\<exists>dataset_dict.
           (case custom_attr_name_dict tk of
              None \<Rightarrow> Inr [(''input_ids'', map (\<lambda>ts. PList (map PInt ts)) tokenized_cells)]
            | Some _ \<Rightarrow>
                (case cell_metadata of
                   None \<Rightarrow> Inl TypeError
                 | Some md \<Rightarrow>
                     Inr (dict_update
                            [(''input_ids'', map (\<lambda>ts. PList (map PInt ts)) tokenized_cells)] md))) =
             Inr dataset_dict \<and>
           dataset_dict \<noteq> [] \<and>
           (\<forall>(k, col) \<in> set dataset_dict. length col = length tokenized_cells) \<and>
           map_of dataset_dict ''input_ids'' =
             Some (map (\<lambda>ts. PList (map PInt ts)) tokenized_cells)"
proof (cases "custom_attr_name_dict tk")
  case None
  then show ?thesis by simp
next
  case (Some d)
  let ?d0 = "[(''input_ids'', map (\<lambda>ts. PList (map PInt ts)) tokenized_cells)]"
  obtain md where md: "cell_metadata = Some md" "''input_ids'' \<notin> set (map fst md)"
    "list_all (\<lambda>(k, col). length col = length tokenized_cells) md"
    using assms Some by auto
  have a: "dict_update ?d0 md \<noteq> []"
    by (rule dict_update_not_Nil) simp
  have "\<forall>(k, col) \<in> set ?d0 \<union> set md. length col = length tokenized_cells"
    using md(3) by (auto simp: list_all_iff)
  then have b: "\<forall>(k, col) \<in> set (dict_update ?d0 md). length col = length tokenized_cells"
    using set_dict_update [of ?d0 md] by blast
  have c: "map_of (dict_update ?d0 md) ''input_ids'' =
           Some (map (\<lambda>ts. PList (map PInt ts)) tokenized_cells)"
    using map_of_dict_update_other [OF md(2), of ?d0] by simp
  show ?thesis
    using Some md(1) a b c by simp
qed

text \<open>
  Claim C6. The tokenizer has no custom attributes, or the metadata columns handed to
  \<open>create_dataset\<close> have one entry per token sequence and none of them is named
  \<^verbatim>\<open>input_ids\<close>. Then, built from a dictionary or from a generator, with or without the
  uncropped fields, the dataset has exactly one row per token sequence, in order; the
  \<^verbatim>\<open>input_ids\<close> of row \<open>i\<close> are the first 2048 tokens of sequence \<open>i\<close> and its
  \<^verbatim>\<open>length\<close> is the smaller of the sequence's length and 2048. No row is dropped, an
  empty sequence included.
\<close>

theorem create_dataset_crops:
  assumes "custom_attr_name_dict tk = None \<or>
           (\<exists>md. cell_metadata = Some md \<and> ''input_ids'' \<notin> set (map fst md) \<and>
                 list_all (\<lambda>(k, col). length col = length tokenized_cells) md)"
  shows "\<exists>rows.
           snd (create_dataset tk tokenized_cells cell_metadata use_generator
                  keep_uncropped_input_ids) = Inr rows \<and>
           length rows = length tokenized_cells \<and>
           (\<forall>i < length tokenized_cells.
              map_of (rows ! i) ''input_ids'' =
                Some (PList (map PInt (take 2048 (tokenized_cells ! i)))) \<and>
              map_of (rows ! i) ''length'' =
                Some (PInt (int (min (length (tokenized_cells ! i)) 2048))))"
proof -
  let ?n = "length tokenized_cells"
  let ?ids = "map (\<lambda>ts. PList (map PInt ts)) tokenized_cells"
  let ?P = "\<lambda>example example'. \<forall>xs. map_of example ''input_ids'' = Some (PList xs) \<longrightarrow>
              map_of example' ''input_ids'' = Some (PList (take 2048 xs)) \<and>
              map_of example' ''length'' = Some (PInt (int (min (length xs) 2048)))"
  obtain dataset_dict where dd:
    "(case custom_attr_name_dict tk of
        None \<Rightarrow> Inr [(''input_ids'', ?ids)]
      | Some _ \<Rightarrow>
          (case cell_metadata of
             None \<Rightarrow> Inl TypeError
           | Some md \<Rightarrow> Inr (dict_update [(''input_ids'', ?ids)] md))) = Inr dataset_dict"
    "dataset_dict \<noteq> []"
    "\<forall>(k, col) \<in> set dataset_dict. length col = ?n"
    "map_of dataset_dict ''input_ids'' = Some ?ids"
    using create_dataset_dict [OF assms] by blast
  let ?rows0 = "map (\<lambda>i. map (\<lambda>(k, col). (k, col ! i)) dataset_dict) [0..<?n]"
  have table: "(if use_generator then dict_generator ?n dataset_dict else from_dict dataset_dict) =
               Inr ?rows0"
    using from_dict_rows [OF dd(2,3)] dict_generator_rows [OF dd(3)] by simp
  have row: "map_of (?rows0 ! i) ''input_ids'' = Some (PList (map PInt (tokenized_cells ! i)))"
    if "i < ?n" for i
    using that by (simp add: map_of_row dd(4))
  have "\<exists>example'. format_cell_features keep_uncropped_input_ids example = Inr example' \<and>
          ?P example example'"
    if mem: "example \<in> set ?rows0" for example
  proof -
    obtain i where i: "i < ?n" "example = ?rows0 ! i"
      using mem by auto
    have ex: "map_of example ''input_ids'' = Some (PList (map PInt (tokenized_cells ! i)))"
      using row [OF i(1)] i(2) by simp
    from format_cell_features_list [OF ex, of keep_uncropped_input_ids]
    show ?thesis
      using ex by auto
  qed
  then obtain rows where rows:
    "mapE (format_cell_features keep_uncropped_input_ids) ?rows0 = Inr rows"
    "list_all2 ?P ?rows0 rows"
    using mapE_list_all2 [of ?rows0 "format_cell_features keep_uncropped_input_ids" ?P] by blast
  have res: "snd (create_dataset tk tokenized_cells cell_metadata use_generator
                    keep_uncropped_input_ids) = Inr rows"
    using dd(1) table rows(1) by (simp add: create_dataset_def Let_def)
  have len: "length rows = ?n"
    using list_all2_lengthD [OF rows(2)] by simp
  have "map_of (rows ! i) ''input_ids'' = Some (PList (map PInt (take 2048 (tokenized_cells ! i)))) \<and>
        map_of (rows ! i) ''length'' = Some (PInt (int (min (length (tokenized_cells ! i)) 2048)))"
    if "i < ?n" for i
  proof -
    have "?P (?rows0 ! i) (rows ! i)"
      using list_all2_nthD [OF rows(2), of i] that by simp
    then show ?thesis
      using row [OF that] by (simp add: take_map)
  qed
  then show ?thesis
    using res len by blast
qed

theorem create_dataset_crops_witness:
  "custom_attr_name_dict example_tokenizer = None \<and>
   (\<exists>rows. snd (create_dataset example_tokenizer [replicate 2050 7, []] None False False) = Inr rows \<and>
      length rows = 2 \<and>
      map_of (rows ! 0) ''input_ids'' = Some (PList (replicate 2048 (PInt 7))) \<and>
      map_of (rows ! 0) ''length'' = Some (PInt 2048) \<and>
      map_of (rows ! 1) ''input_ids'' = Some (PList []) \<and>
      map_of (rows ! 1) ''length'' = Some (PInt 0)) \<and>
   ''input_ids'' \<notin> set (map fst [(''type'', [PStr ''T'', PStr ''NK''])]) \<and>
   snd (create_dataset annotated_tokenizer [[1, 0], []]
          (Some [(''type'', [PStr ''T'', PStr ''NK''])]) True True) =
     Inr [[(''input_ids'', PList [PInt 1, PInt 0]), (''type'', PStr ''T''),
           (''input_ids_uncropped'', PList [PInt 1, PInt 0]),
           (''length_uncropped'', PInt 2), (''length'', PInt 2)],
          [(''input_ids'', PList []), (''type'', PStr ''NK''),
           (''input_ids_uncropped'', PList []), (''length_uncropped'', PInt 0),
           (''length'', PInt 0)]]"
proof -
  have a: "custom_attr_name_dict example_tokenizer = None" by code_simp
  have b: "''input_ids'' \<notin> set (map fst [(''type'', [PStr ''T'', PStr ''NK''])])" by simp
  have v: "snd (create_dataset annotated_tokenizer [[1, 0], []]
          (Some [(''type'', [PStr ''T'', PStr ''NK''])]) True True) =
     Inr [[(''input_ids'', PList [PInt 1, PInt 0]), (''type'', PStr ''T''),
           (''input_ids_uncropped'', PList [PInt 1, PInt 0]),
           (''length_uncropped'', PInt 2), (''length'', PInt 2)],
          [(''input_ids'', PList []), (''type'', PStr ''NK''),
           (''input_ids_uncropped'', PList []), (''length_uncropped'', PInt 0),
           (''length'', PInt 0)]]" by code_simp
  from create_dataset_crops [OF disjI1, OF a, of "[replicate 2050 7, []]" None False False]
  obtain rows where r:
    "snd (create_dataset example_tokenizer [replicate 2050 7, []] None False False) = Inr rows"
    "length rows = length [replicate 2050 (7 :: int), []]"
    "\<forall>i < length [replicate 2050 (7 :: int), []].
       map_of (rows ! i) ''input_ids'' =
         Some (PList (map PInt (take 2048 ([replicate 2050 7, []] ! i)))) \<and>
       map_of (rows ! i) ''length'' =
         Some (PInt (int (min (length ([replicate 2050 (7 :: int), []] ! i)) 2048)))"
    by blast
  have "map_of (rows ! 0) ''input_ids'' = Some (PList (replicate 2048 (PInt 7)))"
    and "map_of (rows ! 0) ''length'' = Some (PInt 2048)"
    using r(3) [rule_format, of 0] by simp_all
  moreover have "map_of (rows ! 1) ''input_ids'' = Some (PList [])"
    and "map_of (rows ! 1) ''length'' = Some (PInt 0)"
    using r(3) [rule_format, of 1] by simp_all
  ultimately show ?thesis
    using a b v r(1,2) by simp
qed

text \<open>
  Claim C1 does not hold of the code. \<open>tokenize_files\<close> calls the per-file function and
  never uses the token sequences it returns: the list it hands to dataset creation is
  the empty list it started with. For the example matrix, whose one cell is included,
  the per-file function returns one token sequence, \<open>tokenize_files\<close> returns none, and
  the table that \<open>tokenize_data\<close> saves has no row.
\<close>

theorem tokenize_files_returns_no_cells:
  "snd (select_cells example_matrix) = [0] \<and>
   snd (tokenize_anndata insertion_argsort example_tokenizer example_matrix
          default_target_sum default_chunk_size) = Inr ([[1, 0]], None) \<and>
   snd (tokenize_loom insertion_argsort example_tokenizer example_matrix default_target_sum) =
     Inr ([[1, 0]], None) \<and>
   snd (tokenize_files insertion_argsort example_tokenizer example_matrix H5ad) = Inr ([], None) \<and>
   snd (tokenize_files insertion_argsort example_tokenizer example_matrix Loom) = Inr ([], None) \<and>
   snd (tokenize_data insertion_argsort example_tokenizer example_matrix ''out/tokens'' Loom False) =
     Inr []"
  by code_simp

lemma tokenize_files_cells_empty:
  "snd (tokenize_files argsort tk data_directory file_format) = Inr (cells, md) \<Longrightarrow> cells = []"
  by (auto simp: tokenize_files_def Let_def split: prod.splits sum.splits option.splits)

end
